theory Spec2Isabelle
  imports Main
begin

section \<open>Data model (types.ts)\<close>

datatype DietaryRestriction =
  Vegetarian | Keto | GlutenFree | Vegan | LowCarb | HighProtein | Pescatarian

datatype Difficulty = Easy | Medium | Hard

record RecipeIngredient =
  ingName :: string
  quantity :: string

record Recipe =
  name :: string
  difficulty :: Difficulty
  prepTime :: string
  calories :: int
  ingredients :: "RecipeIngredient list"
  instructions :: "string list"
  imageUrl :: "string option"

text \<open>
  Every \<open>throw new Error(msg)\<close> of the source is a value \<open>Error msg\<close>; a \<open>TypeError\<close>
  raised by the runtime (a property read on \<open>undefined\<close>) is an \<open>Error\<close> as well
  (\<open>err instanceof Error\<close> holds for it), with the runtime's message.
\<close>

datatype jsError = Error string

fun message :: "jsError \<Rightarrow> string" where
  "message (Error m) = m"

section \<open>String primitives of the runtime\<close>

text \<open>
  Strings are lists of \<open>char\<close>; a \<open>char\<close> stands for the code unit of the same number,
  so the model covers the code units U+0000 to U+00FF. \<open>isWhiteSpace\<close> is the set of
  characters \<open>String.prototype.trim\<close> strips in that range, \<open>toLowerChar\<close> the simple
  lower-case mapping of that range (A to Z, and U+00C0 to U+00DE without the
  multiplication sign U+00D7).
\<close>

definition isWhiteSpace :: "char \<Rightarrow> bool" where
  "isWhiteSpace c = (of_char c \<in> {9, 10, 11, 12, 13, 32, 160 :: nat})"

definition isUpperChar :: "char \<Rightarrow> bool" where
  "isUpperChar c =
     (let n = (of_char c :: nat)
      in (65 \<le> n \<and> n \<le> 90) \<or> (192 \<le> n \<and> n \<le> 222 \<and> n \<noteq> 215))"

definition toLowerChar :: "char \<Rightarrow> char" where
  "toLowerChar c = (if isUpperChar c then char_of (of_char c + (32 :: nat)) else c)"

definition toLowerCase :: "string \<Rightarrow> string" where
  "toLowerCase s = map toLowerChar s"

definition trim :: "string \<Rightarrow> string" where
  "trim s = rev (dropWhile isWhiteSpace (rev (dropWhile isWhiteSpace s)))"

text \<open>
  \<open>s.split(sep)\<close> for a one-character separator: the segments between the separators,
  empty segments kept; the empty string splits into one empty segment.
\<close>

fun splitStr :: "char \<Rightarrow> string \<Rightarrow> string list" where
  "splitStr sep [] = [] # []"
| "splitStr sep (c # cs) =
     (if c = sep then [] # splitStr sep cs
      else (case splitStr sep cs of
              [] \<Rightarrow> [c] # []
            | seg # segs \<Rightarrow> (c # seg) # segs))"

text \<open>\<open>xs.join(sep)\<close>.\<close>

fun joinStr :: "string \<Rightarrow> string list \<Rightarrow> string" where
  "joinStr sep [] = []"
| "joinStr sep [x] = x"
| "joinStr sep (x # y # ys) = x @ sep @ joinStr sep (y # ys)"

text \<open>\<open>s.includes(x)\<close>: \<open>x\<close> occurs in \<open>s\<close> as a contiguous run; the empty string occurs everywhere.\<close>

fun startsWith :: "string \<Rightarrow> string \<Rightarrow> bool" where
  "startsWith s [] = True"
| "startsWith [] (x # xs) = False"
| "startsWith (c # cs) (x # xs) = (c = x \<and> startsWith cs xs)"

fun includesStr :: "string \<Rightarrow> string \<Rightarrow> bool" where
  "includesStr [] x = startsWith [] x"
| "includesStr (c # cs) x = (startsWith (c # cs) x \<or> includesStr cs x)"

section \<open>AI gateway client (services/geminiService.ts)\<close>

subsection \<open>fileToGenerativePart\<close>

text \<open>
  A \<open>File\<close> as the gateway sees it: its mime type and what \<open>FileReader.readAsDataURL\<close>
  delivers, \<open>None\<close> when the reader fails (\<open>onerror\<close>) or its result is not a string.
\<close>

record File =
  fileType :: string
  dataURL :: "string option"

record InlineData =
  data :: "string option"
  mimeType :: string

definition fileToGenerativePart :: "File \<Rightarrow> jsError + InlineData" where
  "fileToGenerativePart file =
     (case dataURL file of
        None \<Rightarrow> Inl (Error ''Failed to read file as base64 string'')
      | Some result \<Rightarrow>
          (let parts = splitStr CHR '','' result
           in Inr \<lparr>data = (if 1 < length parts then Some (parts ! 1) else None),
                   mimeType = fileType file\<rparr>))"

subsection \<open>analyzeFridgeContents\<close>

text \<open>
  What one call of \<open>ai.models.generateContent\<close> does for a text request: it raises, or it
  answers with a response whose \<open>text\<close> is a string or \<open>undefined\<close>.
\<close>

datatype TextReply = Raises | Text "string option"

definition analyzeFridgeContents :: "(InlineData \<Rightarrow> TextReply) \<Rightarrow> File \<Rightarrow> jsError + string list" where
  "analyzeFridgeContents generateContent imageFile =
     (case fileToGenerativePart imageFile of
        Inl e \<Rightarrow> Inl (Error ''Failed to analyze image with Gemini API.'')
      | Inr imagePart \<Rightarrow>
          (case generateContent imagePart of
             Raises \<Rightarrow> Inl (Error ''Failed to analyze image with Gemini API.'')
           | Text None \<Rightarrow> Inr []
           | Text (Some ingredientsText) \<Rightarrow>
               (if ingredientsText = [] then Inr []
                else Inr (filter (\<lambda>item. item \<noteq> [])
                            (map (\<lambda>item. toLowerCase (trim item))
                               (splitStr CHR '','' ingredientsText))))))"

subsection \<open>getRecipes\<close>

text \<open>
  What the structured request of \<open>getRecipes\<close> comes back with, after the two library
  calls the function makes on it (\<open>response.text.trim()\<close> and \<open>JSON.parse\<close>): the service
  call raises; or the text is missing or does not parse (either raises inside the
  \<open>try\<close>); or it parses to an object whose member \<open>recipes\<close> is the given list, \<open>None\<close>
  when the object has no such member. The prompt is a fixed text around the ingredients
  and the filters, so the service is a function of these two.
\<close>

datatype RecipesReply = RecipesRaises | RecipesUnparsable | RecipesParsed "Recipe list option"

definition getRecipes ::
  "(string list \<Rightarrow> DietaryRestriction list \<Rightarrow> RecipesReply) \<Rightarrow>
   string list \<Rightarrow> DietaryRestriction list \<Rightarrow> jsError + Recipe list option" where
  "getRecipes generateContent ingredientList filters =
     (case generateContent ingredientList filters of
        RecipesRaises \<Rightarrow> Inl (Error ''Failed to generate recipes with Gemini API.'')
      | RecipesUnparsable \<Rightarrow> Inl (Error ''Failed to generate recipes with Gemini API.'')
      | RecipesParsed result \<Rightarrow> Inr result)"

subsection \<open>generateRecipeImage\<close>

record Part =
  inlineData :: "InlineData option"
  partText :: "string option"

text \<open>
  A candidate of an image response is its \<open>content.parts\<close>, \<open>None\<close> when \<open>content\<close> or
  \<open>parts\<close> is missing; a response is its list of candidates (empty when there is none).
\<close>

type_synonym Candidate = "Part list option"

datatype ImageReply = ImageRaises | ImageResponse "Candidate list"

text \<open>The \<open>for\<close> loop over the parts: the first part with inline data decides.\<close>

fun findInlineData :: "Part list \<Rightarrow> string option" where
  "findInlineData [] = None"
| "findInlineData (part # rest) =
     (case inlineData part of
        Some d \<Rightarrow>
          Some (''data:image/png;base64,''
                  @ (case data d of None \<Rightarrow> ''undefined'' | Some base64ImageBytes \<Rightarrow> base64ImageBytes))
      | None \<Rightarrow> findInlineData rest)"

definition imageFailure :: "string \<Rightarrow> jsError" where
  "imageFailure recipeName =
     Error (''Failed to generate an image for the recipe: '' @ recipeName @ ''.'')"

definition generateRecipeImage :: "(string \<Rightarrow> ImageReply) \<Rightarrow> string \<Rightarrow> jsError + string" where
  "generateRecipeImage generateContent recipeName =
     (case generateContent recipeName of
        ImageRaises \<Rightarrow> Inl (imageFailure recipeName)
      | ImageResponse [] \<Rightarrow> Inl (imageFailure recipeName)
      | ImageResponse (None # _) \<Rightarrow> Inl (imageFailure recipeName)
      | ImageResponse (Some parts # _) \<Rightarrow>
          (case findInlineData parts of
             Some url \<Rightarrow> Inr url
           | None \<Rightarrow> Inl (imageFailure recipeName)))"

section \<open>Recipe acquisition pipeline (App.tsx)\<close>

text \<open>
  The external service as one run of the pipeline meets it. The image requests of a run
  are told apart by the position of their recipe in the list, since the service may
  answer two requests for the same name differently.
\<close>

record Services =
  analyzeService :: "InlineData \<Rightarrow> TextReply"
  recipeService :: "string list \<Rightarrow> DietaryRestriction list \<Rightarrow> RecipesReply"
  imageService :: "nat \<Rightarrow> string \<Rightarrow> ImageReply"

datatype AppState = Initial | Analyzing | Generating | Results

record App =
  appState :: AppState
  error :: "string option"
  imageFile :: "File option"
  identifiedIngredients :: "string list"
  recipes :: "Recipe list"
  activeFilters :: "DietaryRestriction list"
  selectedRecipe :: "Recipe option"

text \<open>The body of the \<open>map\<close> callback: \<open>{...recipe, imageUrl}\<close>, or the recipe as it is.\<close>

definition attachImage :: "Services \<Rightarrow> nat \<Rightarrow> Recipe \<Rightarrow> Recipe" where
  "attachImage svc i recipe =
     (case generateRecipeImage (imageService svc i) (name recipe) of
        Inr url \<Rightarrow> recipe\<lparr>imageUrl := Some url\<rparr>
      | Inl imageError \<Rightarrow> recipe)"

definition recipesWithImages :: "Services \<Rightarrow> Recipe list \<Rightarrow> Recipe list" where
  "recipesWithImages svc generatedRecipes =
     map (\<lambda>(i, recipe). attachImage svc i recipe) (enumerate 0 generatedRecipes)"

text \<open>The message of the \<open>TypeError\<close> that \<open>undefined.map\<close> raises.\<close>

definition mapOfUndefined :: jsError where
  "mapOfUndefined =
     Error (''Cannot read properties of undefined (reading '' @ [CHR 0x27] @ ''map''
              @ [CHR 0x27] @ '')'')"

definition handleImageUpload :: "Services \<Rightarrow> File \<Rightarrow> App \<Rightarrow> App" where
  "handleImageUpload svc file s =
     (let s1 = s\<lparr>imageFile := Some file, appState := Analyzing, error := None\<rparr>
      in case analyzeFridgeContents (analyzeService svc) file of
           Inl err \<Rightarrow> s1\<lparr>error := Some (message err), appState := Initial\<rparr>
         | Inr ingredientList \<Rightarrow>
             (let s2 = s1\<lparr>identifiedIngredients := ingredientList, appState := Generating\<rparr>
              in case getRecipes (recipeService svc) ingredientList (activeFilters s) of
                   Inl err \<Rightarrow> s2\<lparr>error := Some (message err), appState := Initial\<rparr>
                 | Inr None \<Rightarrow> s2\<lparr>error := Some (message mapOfUndefined), appState := Initial\<rparr>
                 | Inr (Some generatedRecipes) \<Rightarrow>
                     s2\<lparr>recipes := recipesWithImages svc generatedRecipes,
                        appState := Results\<rparr>))"

definition handleFilterChange :: "Services \<Rightarrow> DietaryRestriction list \<Rightarrow> App \<Rightarrow> App" where
  "handleFilterChange svc newFilters s =
     (let s1 = s\<lparr>activeFilters := newFilters\<rparr>
      in if length (identifiedIngredients s) > 0 then
           (let s2 = s1\<lparr>appState := Generating, error := None\<rparr>
            in case getRecipes (recipeService svc) (identifiedIngredients s) newFilters of
                 Inl err \<Rightarrow> s2\<lparr>error := Some (message err), appState := Results\<rparr>
               | Inr None \<Rightarrow> s2\<lparr>error := Some (message mapOfUndefined), appState := Results\<rparr>
               | Inr (Some generatedRecipes) \<Rightarrow>
                   s2\<lparr>recipes := recipesWithImages svc generatedRecipes,
                      appState := Results\<rparr>)
         else s1)"

text \<open>
  What the image-attachment step may not touch: the six fields recipe generation filled.
\<close>

definition sameExceptImageUrl :: "Recipe \<Rightarrow> Recipe \<Rightarrow> bool" where
  "sameExceptImageUrl generated final =
     (name final = name generated \<and> difficulty final = difficulty generated
      \<and> prepTime final = prepTime generated \<and> calories final = calories generated
      \<and> ingredients final = ingredients generated
      \<and> instructions final = instructions generated)"

definition initialApp :: App where
  "initialApp =
     \<lparr>appState = Initial, error = None, imageFile = None, identifiedIngredients = [],
      recipes = [], activeFilters = [], selectedRecipe = None\<rparr>"

text \<open>
  One run of a handler after the other. \<open>renderContent\<close> shows the uploader only while
  \<open>appState\<close> is \<open>initial\<close> (its input is disabled while \<open>analyzing\<close>) and the sidebar with
  the filters otherwise; between two runs \<open>appState\<close> is \<open>initial\<close> or \<open>results\<close>.
\<close>

datatype AppEvent = Upload Services File | FilterChange Services "DietaryRestriction list"

definition appStep :: "AppEvent \<Rightarrow> App \<Rightarrow> App" where
  "appStep ev s =
     (case ev of
        Upload svc file \<Rightarrow> (if appState s = Initial then handleImageUpload svc file s else s)
      | FilterChange svc newFilters \<Rightarrow>
          (if appState s = Results then handleFilterChange svc newFilters s else s))"

definition runApp :: "AppEvent list \<Rightarrow> App" where
  "runApp evs = foldl (\<lambda>s ev. appStep ev s) initialApp evs"

section \<open>Recipe view (components/RecipeModal.tsx)\<close>

subsection \<open>Ingredient availability\<close>

definition isOwned :: "string list \<Rightarrow> RecipeIngredient \<Rightarrow> bool" where
  "isOwned ownedIngredients ing =
     list_ex (\<lambda>ownedIng. includesStr (toLowerCase (ingName ing)) ownedIng) ownedIngredients"

subsection \<open>The speech engine\<close>

text \<open>
  The browser's \<open>speechSynthesis\<close> object as the component uses it: a queue of
  utterances whose head is the one being spoken once it has begun, and the paused flag.
  \<open>speak\<close> appends and starts at once unless the engine is paused; \<open>cancel\<close> empties the
  queue and leaves the paused flag alone; \<open>pause\<close> and \<open>resume\<close> set and clear the flag.
  The attribute \<open>speaking\<close> holds while an utterance has begun and has not ended, paused
  or not. Every call is recorded in \<open>calls\<close>, oldest first.

  An utterance carries its text and the value of \<open>currentStepIndex\<close> that its \<open>onend\<close>
  closure captured when the effect created it.
\<close>

record Utterance =
  utterText :: string
  utterStep :: int

datatype SynthCall = Pause | Resume | Cancel | Speak string

record SpeechSynthesis =
  queue :: "Utterance list"
  begun :: bool
  paused :: bool
  calls :: "SynthCall list"

definition speaking :: "SpeechSynthesis \<Rightarrow> bool" where
  "speaking e = (begun e \<and> queue e \<noteq> [])"

definition synthPause :: "SpeechSynthesis \<Rightarrow> SpeechSynthesis" where
  "synthPause e = e\<lparr>paused := True, calls := calls e @ [Pause]\<rparr>"

definition synthResume :: "SpeechSynthesis \<Rightarrow> SpeechSynthesis" where
  "synthResume e = e\<lparr>paused := False, begun := (queue e \<noteq> []), calls := calls e @ [Resume]\<rparr>"

definition synthCancel :: "SpeechSynthesis \<Rightarrow> SpeechSynthesis" where
  "synthCancel e = e\<lparr>queue := [], begun := False, calls := calls e @ [Cancel]\<rparr>"

definition synthSpeak :: "Utterance \<Rightarrow> SpeechSynthesis \<Rightarrow> SpeechSynthesis" where
  "synthSpeak u e =
     e\<lparr>queue := queue e @ [u], begun := (begun e \<or> \<not> paused e),
       calls := calls e @ [Speak (utterText u)]\<rparr>"

subsection \<open>Narration\<close>

record Narration =
  isSpeaking :: bool
  currentStepIndex :: int
  speechSynthesis :: SpeechSynthesis

definition initialNarration :: Narration where
  "initialNarration =
     \<lparr>isSpeaking = False, currentStepIndex = 0,
      speechSynthesis = \<lparr>queue = [], begun = False, paused = False, calls = []\<rparr>\<rparr>"

text \<open>Decimal rendering of a number inside a template literal.\<close>

fun showNat :: "nat \<Rightarrow> string" where
  "showNat n =
     (if n < 10 then [char_of (48 + n)]
      else showNat (n div 10) @ [char_of (48 + n mod 10)])"

declare showNat.simps [simp del]

definition showInt :: "int \<Rightarrow> string" where
  "showInt i = (if i < 0 then CHR ''-'' # showNat (nat (- i)) else showNat (nat i))"

text \<open>\<open>`Step ${currentStepIndex + 1}. ${recipe.instructions[currentStepIndex]}`\<close>;
  an index outside the array reads \<open>undefined\<close>.\<close>

definition textToSpeak :: "Recipe \<Rightarrow> int \<Rightarrow> string" where
  "textToSpeak recipe i =
     ''Step '' @ showInt (i + 1) @ ''. ''
       @ (if 0 \<le> i \<and> i < int (length (instructions recipe))
          then instructions recipe ! nat i else ''undefined'')"

definition stopSpeaking :: "Narration \<Rightarrow> Narration" where
  "stopSpeaking s =
     (let e = speechSynthesis s
      in s\<lparr>speechSynthesis := (if speaking e then synthCancel e else e),
           isSpeaking := False\<rparr>)"

text \<open>The \<open>onend\<close> handler of the utterance \<open>u\<close>; \<open>setCurrentStepIndex(prev => prev + 1)\<close>
  reads the index of the state, the comparison reads the captured one.\<close>

definition onend :: "Recipe \<Rightarrow> Utterance \<Rightarrow> Narration \<Rightarrow> Narration" where
  "onend recipe u s =
     (if utterStep u < int (length (instructions recipe)) - 1
      then s\<lparr>currentStepIndex := currentStepIndex s + 1\<rparr>
      else s\<lparr>isSpeaking := False\<rparr>)"

text \<open>The body of the narration effect, for an open recipe.\<close>

definition narrationEffect :: "Recipe \<Rightarrow> Narration \<Rightarrow> Narration" where
  "narrationEffect recipe s =
     (if isSpeaking s \<and> currentStepIndex s < int (length (instructions recipe)) then
        (let s1 = stopSpeaking s;
             utterance = \<lparr>utterText = textToSpeak recipe (currentStepIndex s),
                          utterStep = currentStepIndex s\<rparr>
         in s1\<lparr>speechSynthesis := synthSpeak utterance (speechSynthesis s1)\<rparr>)
      else s)"

definition handlePlayPause :: "Recipe \<Rightarrow> Narration \<Rightarrow> Narration" where
  "handlePlayPause recipe s =
     (let e = speechSynthesis s
      in if isSpeaking s then
           s\<lparr>speechSynthesis := synthPause e, isSpeaking := False\<rparr>
         else
           (let s1 = (if paused e then s\<lparr>speechSynthesis := synthResume e\<rparr>
                      else if currentStepIndex s \<ge> int (length (instructions recipe))
                      then s\<lparr>currentStepIndex := 0\<rparr>
                      else s)
            in s1\<lparr>isSpeaking := True\<rparr>))"

definition handleStop :: "Narration \<Rightarrow> Narration" where
  "handleStop s = (stopSpeaking s)\<lparr>currentStepIndex := 0\<rparr>"

text \<open>
  After an event handler has run, the component renders with the new state and the
  effect runs if one of its dependencies \<open>isSpeaking\<close>, \<open>currentStepIndex\<close> differs from
  the render before (the recipe stays the same while it is open). The effect sets state
  itself, which renders once more.
\<close>

definition depsChanged :: "Narration \<Rightarrow> Narration \<Rightarrow> bool" where
  "depsChanged prev s =
     (isSpeaking s \<noteq> isSpeaking prev \<or> currentStepIndex s \<noteq> currentStepIndex prev)"

definition render :: "Recipe \<Rightarrow> Narration \<Rightarrow> Narration \<Rightarrow> Narration" where
  "render recipe prev s = (if depsChanged prev s then narrationEffect recipe s else s)"

definition settle :: "Recipe \<Rightarrow> Narration \<Rightarrow> Narration \<Rightarrow> Narration" where
  "settle recipe prev s = (let s1 = render recipe prev s in render recipe s s1)"

text \<open>
  The events of the narration machine: a click on the play/pause button (play when
  \<open>isSpeaking\<close> is false, pause when it is true), a click on stop, and the engine
  finishing the utterance it is speaking, which can happen only while an utterance has
  begun and the engine is not paused.
\<close>

datatype NarrationEvent = PlayPauseClick | StopClick | UtteranceEnd

definition step :: "Recipe \<Rightarrow> NarrationEvent \<Rightarrow> Narration \<Rightarrow> Narration" where
  "step recipe ev s =
     (case ev of
        PlayPauseClick \<Rightarrow> settle recipe s (handlePlayPause recipe s)
      | StopClick \<Rightarrow> settle recipe s (handleStop s)
      | UtteranceEnd \<Rightarrow>
          (let e = speechSynthesis s
           in case queue e of
                [] \<Rightarrow> s
              | u # rest \<Rightarrow>
                  if begun e \<and> \<not> paused e then
                    settle recipe s
                      (onend recipe u
                         (s\<lparr>speechSynthesis := e\<lparr>queue := rest, begun := (rest \<noteq> [])\<rparr>\<rparr>))
                  else s))"

definition run :: "Recipe \<Rightarrow> NarrationEvent list \<Rightarrow> Narration \<Rightarrow> Narration" where
  "run recipe evs s = foldl (\<lambda>s ev. step recipe ev s) s evs"

text \<open>
  What holds between two events: the index is in range and, for a recipe with
  instructions, below their number; the queue holds at most one utterance, which has
  begun and has captured the current index; \<open>isSpeaking\<close> is set only where the effect
  has nothing to narrate.
\<close>

definition indexInv :: "Recipe \<Rightarrow> Narration \<Rightarrow> bool" where
  "indexInv recipe s =
     (0 \<le> currentStepIndex s
      \<and> currentStepIndex s \<le> int (length (instructions recipe))
      \<and> (instructions recipe \<noteq> [] \<longrightarrow> currentStepIndex s < int (length (instructions recipe))))"

definition queueInv :: "Recipe \<Rightarrow> Narration \<Rightarrow> bool" where
  "queueInv recipe s =
     (length (queue (speechSynthesis s)) \<le> 1
      \<and> (\<forall>u\<in>set (queue (speechSynthesis s)). utterStep u = currentStepIndex s)
      \<and> (queue (speechSynthesis s) \<noteq> [] \<longrightarrow>
            begun (speechSynthesis s)
            \<and> currentStepIndex s < int (length (instructions recipe))))"

definition narrationInv :: "Recipe \<Rightarrow> Narration \<Rightarrow> bool" where
  "narrationInv recipe s =
     (indexInv recipe s \<and> queueInv recipe s
      \<and> (isSpeaking s \<longrightarrow> int (length (instructions recipe)) \<le> currentStepIndex s))"


section \<open>Example inputs\<close>

definition fridgePhoto :: File where
  "fridgePhoto = \<lparr>fileType = ''image/png'', dataURL = Some ''data:image/png;base64,AAAA''\<rparr>"

definition omelette :: Recipe where
  "omelette =
     \<lparr>name = ''Cheese Omelette'', difficulty = Easy, prepTime = ''10 minutes'', calories = 320,
      ingredients = [\<lparr>ingName = ''Eggs'', quantity = ''3''\<rparr>,
                     \<lparr>ingName = ''Cheddar'', quantity = ''50 g''\<rparr>],
      instructions = [''Beat the eggs.'', ''Cook them.'', ''Fold in the cheese.''],
      imageUrl = None\<rparr>"

definition pancakes :: Recipe where
  "pancakes =
     \<lparr>name = ''Pancakes'', difficulty = Medium, prepTime = ''20 minutes'', calories = 450,
      ingredients = [\<lparr>ingName = ''Milk'', quantity = ''1 cup''\<rparr>],
      instructions = [''Mix.'', ''Fry.''],
      imageUrl = None\<rparr>"

definition pngPart :: Part where
  "pngPart =
     \<lparr>inlineData = Some \<lparr>data = Some ''iVBORw0KGgo='', mimeType = ''image/png''\<rparr>,
      partText = None\<rparr>"

text \<open>A service that answers every request, except that the first image request raises.\<close>

definition degradedServices :: Services where
  "degradedServices =
     \<lparr>analyzeService = (\<lambda>_. Text (Some ''eggs, milk, cheddar'')),
      recipeService = (\<lambda>_ _. RecipesParsed (Some [omelette, pancakes])),
      imageService = (\<lambda>i _. if i = 0 then ImageRaises else ImageResponse [Some [pngPart]])\<rparr>"

text \<open>A service whose image analysis raises, and one whose recipe answer does not parse.\<close>

definition blindServices :: Services where
  "blindServices = degradedServices\<lparr>analyzeService := (\<lambda>_. Raises)\<rparr>"

definition garbledServices :: Services where
  "garbledServices = degradedServices\<lparr>recipeService := (\<lambda>_ _. RecipesUnparsable)\<rparr>"

section \<open>Properties of the gateway client\<close>

subsection \<open>Strings\<close>

lemma toLowerChar_not_upper: "\<not> isUpperChar (toLowerChar c)"
  unfolding toLowerChar_def isUpperChar_def Let_def
  by auto

lemma isWhiteSpace_toLowerChar: "isWhiteSpace (toLowerChar c) = isWhiteSpace c"
  unfolding toLowerChar_def isUpperChar_def isWhiteSpace_def Let_def
  by auto

lemma length_toLowerCase: "length (toLowerCase s) = length s"
  by (simp add: toLowerCase_def)

lemma toLowerCase_Nil_iff: "toLowerCase s = [] \<longleftrightarrow> s = []"
  by (simp add: toLowerCase_def)

lemma toLowerCase_no_upper: "c \<in> set (toLowerCase s) \<Longrightarrow> \<not> isUpperChar c"
  by (auto simp: toLowerCase_def toLowerChar_not_upper)

lemma last_dropWhile: "dropWhile P xs \<noteq> [] \<Longrightarrow> last (dropWhile P xs) = last xs"
  by (induction xs) auto

lemma trim_hd: "trim s \<noteq> [] \<Longrightarrow> \<not> isWhiteSpace (hd (trim s))"
proof -
  assume ne: "trim s \<noteq> []"
  define t where "t = dropWhile isWhiteSpace s"
  define r where "r = dropWhile isWhiteSpace (rev t)"
  have tr: "trim s = rev r" by (simp add: trim_def r_def t_def)
  with ne have r: "r \<noteq> []" by simp
  then have t: "t \<noteq> []" by (auto simp: r_def)
  have "hd (trim s) = last r" using r by (simp add: tr hd_rev)
  also have "\<dots> = last (rev t)" using r unfolding r_def by (rule last_dropWhile)
  also have "\<dots> = hd t" using t by (simp add: last_rev)
  finally have "hd (trim s) = hd t" .
  moreover have "\<not> isWhiteSpace (hd t)" using t unfolding t_def by (rule hd_dropWhile)
  ultimately show ?thesis by simp
qed

lemma trim_last: "trim s \<noteq> [] \<Longrightarrow> \<not> isWhiteSpace (last (trim s))"
proof -
  assume ne: "trim s \<noteq> []"
  let ?r = "dropWhile isWhiteSpace (rev (dropWhile isWhiteSpace s))"
  from ne have r: "?r \<noteq> []" by (simp add: trim_def)
  have "last (trim s) = hd ?r" using r by (simp add: trim_def last_rev)
  then show ?thesis using r hd_dropWhile by metis
qed

lemma hd_toLowerCase: "s \<noteq> [] \<Longrightarrow> hd (toLowerCase s) = toLowerChar (hd s)"
  by (simp add: toLowerCase_def hd_map)

lemma last_toLowerCase: "s \<noteq> [] \<Longrightarrow> last (toLowerCase s) = toLowerChar (last s)"
  by (simp add: toLowerCase_def last_map)

lemma splitStr_not_Nil: "splitStr sep s \<noteq> []"
  by (induction s) (auto split: list.splits)

lemma joinStr_Cons: "ys \<noteq> [] \<Longrightarrow> joinStr sep (x # ys) = x @ sep @ joinStr sep ys"
  by (cases ys) auto

lemma joinStr_hd_Cons: "joinStr sep ((c # seg) # segs) = c # joinStr sep (seg # segs)"
  by (cases segs) auto

lemma joinStr_splitStr: "joinStr [sep] (splitStr sep s) = s"
proof (induction s)
  case Nil
  show ?case by simp
next
  case (Cons c cs)
  show ?case
  proof (cases "c = sep")
    case True
    then show ?thesis using Cons splitStr_not_Nil [of sep cs] by (simp add: joinStr_Cons)
  next
    case False
    obtain seg segs where sp: "splitStr sep cs = seg # segs"
      using splitStr_not_Nil [of sep cs] by (cases "splitStr sep cs") auto
    with False Cons show ?thesis by (simp add: joinStr_hd_Cons)
  qed
qed

lemma splitStr_no_sep: "seg \<in> set (splitStr sep s) \<Longrightarrow> sep \<notin> set seg"
  by (induction s arbitrary: seg) (auto split: if_splits list.splits)

lemma startsWith_iff: "startsWith s x \<longleftrightarrow> (\<exists>ss. s = x @ ss)"
  by (induction s x rule: startsWith.induct) auto

lemma includesStr_iff: "includesStr s x \<longleftrightarrow> (\<exists>ps ss. s = ps @ x @ ss)"
proof (induction s)
  case Nil
  show ?case by (cases x) auto
next
  case (Cons c cs)
  show ?case
  proof
    assume "includesStr (c # cs) x"
    then consider "startsWith (c # cs) x" | "includesStr cs x" by auto
    then show "\<exists>ps ss. c # cs = ps @ x @ ss"
    proof cases
      case 1
      then obtain ss where "c # cs = x @ ss" by (auto simp: startsWith_iff)
      then have "c # cs = [] @ x @ ss" by simp
      then show ?thesis by blast
    next
      case 2
      with Cons obtain ps ss where "cs = ps @ x @ ss" by blast
      then have "c # cs = (c # ps) @ x @ ss" by simp
      then show ?thesis by blast
    qed
  next
    assume "\<exists>ps ss. c # cs = ps @ x @ ss"
    then obtain ps ss where eq: "c # cs = ps @ x @ ss" by blast
    show "includesStr (c # cs) x"
    proof (cases ps)
      case Nil
      with eq have "startsWith (c # cs) x" by (auto simp: startsWith_iff)
      then show ?thesis by simp
    next
      case (Cons p ps')
      with eq have "cs = ps' @ x @ ss" by simp
      with Cons.IH have "includesStr cs x" by blast
      then show ?thesis by simp
    qed
  qed
qed

lemma toLowerCase_idem: "toLowerCase (toLowerCase s) = toLowerCase s"
proof -
  have "toLowerChar (toLowerChar c) = toLowerChar c" for c
    using toLowerChar_not_upper [of c] by (simp add: toLowerChar_def [of "toLowerChar c"])
  then show ?thesis by (simp add: toLowerCase_def)
qed

lemma item_shape:
  assumes "trim seg \<noteq> []"
  shows "toLowerCase (trim seg) \<noteq> []
    \<and> \<not> isWhiteSpace (hd (toLowerCase (trim seg)))
    \<and> \<not> isWhiteSpace (last (toLowerCase (trim seg)))
    \<and> (\<forall>c\<in>set (toLowerCase (trim seg)). \<not> isUpperChar c)"
  using assms trim_hd [OF assms] trim_last [OF assms]
  by (simp add: toLowerCase_Nil_iff hd_toLowerCase last_toLowerCase
        isWhiteSpace_toLowerChar toLowerCase_no_upper)

lemma analyzeFridgeContents_text:
  assumes "fileToGenerativePart file = Inr imagePart"
    and "generateContent imagePart = Text (Some answer)"
  shows "analyzeFridgeContents generateContent file =
           Inr (filter (\<lambda>item. item \<noteq> [])
                  (map (\<lambda>seg. toLowerCase (trim seg)) (splitStr CHR '','' answer)))"
proof (cases "answer = []")
  case True
  with assms show ?thesis by (simp add: analyzeFridgeContents_def trim_def toLowerCase_def)
next
  case False
  with assms show ?thesis by (simp add: analyzeFridgeContents_def)
qed

lemma analyzeFridgeContents_lower:
  assumes "analyzeFridgeContents generateContent file = Inr owned"
    and "x \<in> set owned"
  shows "toLowerCase x = x"
  using assms
  by (auto simp: analyzeFridgeContents_def toLowerCase_idem
      split: sum.splits TextReply.splits option.splits if_splits)

subsection \<open>Ingredient extraction\<close>

text \<open>
  Claim C7. For a readable file and a non-empty answer text, \<open>analyzeFridgeContents\<close>
  returns the segments of the text between its commas (joined by commas they give the
  text back, and none contains a comma), each trimmed and then lower-cased, the empty
  ones dropped, in order; every returned item is non-empty, neither starts nor ends with
  white space, and contains no upper-case character.
\<close>

theorem analyzeFridgeContents_postprocessing:
  assumes "fileToGenerativePart file = Inr imagePart"
    and "generateContent imagePart = Text (Some answer)"
    and "answer \<noteq> []"
  shows "\<exists>found. analyzeFridgeContents generateContent file = Inr found
    \<and> found = filter (\<lambda>item. item \<noteq> [])
                (map (\<lambda>seg. toLowerCase (trim seg)) (splitStr CHR '','' answer))
    \<and> joinStr '','' (splitStr CHR '','' answer) = answer
    \<and> (\<forall>seg\<in>set (splitStr CHR '','' answer). CHR '','' \<notin> set seg)
    \<and> (\<forall>item\<in>set found. item \<noteq> []
          \<and> \<not> isWhiteSpace (hd item) \<and> \<not> isWhiteSpace (last item)
          \<and> (\<forall>c\<in>set item. \<not> isUpperChar c))"
proof -
  let ?found = "filter (\<lambda>item. item \<noteq> [])
                  (map (\<lambda>seg. toLowerCase (trim seg)) (splitStr CHR '','' answer))"
  have res: "analyzeFridgeContents generateContent file = Inr ?found"
    using assms(1,2) by (rule analyzeFridgeContents_text)
  have shape: "item \<noteq> [] \<and> \<not> isWhiteSpace (hd item) \<and> \<not> isWhiteSpace (last item)
      \<and> (\<forall>c\<in>set item. \<not> isUpperChar c)" if "item \<in> set ?found" for item
  proof -
    from that obtain seg where item: "item = toLowerCase (trim seg)" and "item \<noteq> []"
      by auto
    then have "trim seg \<noteq> []" by (simp add: toLowerCase_Nil_iff)
    then show ?thesis unfolding item by (rule item_shape)
  qed
  show ?thesis
    using res shape joinStr_splitStr [where sep = "CHR '',''" and s = answer]
      splitStr_no_sep [where sep = "CHR '',''" and s = answer]
    by blast
qed

text \<open>The theorem at the answer \<open>Eggs, Milk ,,  Cheddar Cheese,\<close>.\<close>

theorem analyzeFridgeContents_postprocessing_witness:
  "analyzeFridgeContents (\<lambda>_. Text (Some ''Eggs, Milk ,,  Cheddar Cheese,''))
     \<lparr>fileType = ''image/png'', dataURL = Some ''data:image/png;base64,AAAA''\<rparr>
   = Inr [''eggs'', ''milk'', ''cheddar cheese'']"
proof -
  have f: "fileToGenerativePart \<lparr>fileType = ''image/png'', dataURL = Some ''data:image/png;base64,AAAA''\<rparr>
      = Inr \<lparr>data = Some ''AAAA'', mimeType = ''image/png''\<rparr>"
    by (simp add: fileToGenerativePart_def)
  have g: "(\<lambda>_. Text (Some ''Eggs, Milk ,,  Cheddar Cheese,'')) \<lparr>data = Some ''AAAA'', mimeType = ''image/png''\<rparr>
      = Text (Some ''Eggs, Milk ,,  Cheddar Cheese,'')" by simp
  have n: "''Eggs, Milk ,,  Cheddar Cheese,'' \<noteq> []" by simp
  from analyzeFridgeContents_postprocessing [OF f g n]
  obtain found where "analyzeFridgeContents (\<lambda>_. Text (Some ''Eggs, Milk ,,  Cheddar Cheese,''))
     \<lparr>fileType = ''image/png'', dataURL = Some ''data:image/png;base64,AAAA''\<rparr> = Inr found"
    and "found = filter (\<lambda>item. item \<noteq> [])
                (map (\<lambda>seg. toLowerCase (trim seg)) (splitStr CHR '','' ''Eggs, Milk ,,  Cheddar Cheese,''))"
    by blast
  then show ?thesis
    by (simp add: trim_def toLowerCase_def toLowerChar_def isUpperChar_def isWhiteSpace_def
        char_of_eq_iff)
qed

text \<open>
  Claim C3, as stated, fails: a response without text, or with the empty text, makes
  \<open>analyzeFridgeContents\<close> return the empty ingredient list, not an error.
\<close>

theorem analyzeFridgeContents_no_text_counterexample:
  "analyzeFridgeContents (\<lambda>_. Text None)
     \<lparr>fileType = ''image/png'', dataURL = Some ''data:image/png;base64,AAAA''\<rparr> = Inr []
   \<and> analyzeFridgeContents (\<lambda>_. Text (Some ''''))
     \<lparr>fileType = ''image/png'', dataURL = Some ''data:image/png;base64,AAAA''\<rparr> = Inr []"
  by (simp add: analyzeFridgeContents_def fileToGenerativePart_def)

text \<open>
  Claim C3, amended. \<open>analyzeFridgeContents\<close> fails, with the error
  \<open>Failed to analyze image with Gemini API.\<close>, when the file cannot be read and when the
  service call raises, and in no other case; a response whose text is missing or empty
  is answered with the empty ingredient list (the guard
  \<open>if (!ingredientsText) return []\<close>).
\<close>

theorem analyzeFridgeContents_failure:
  "(dataURL file = None \<longrightarrow>
      analyzeFridgeContents generateContent file
        = Inl (Error ''Failed to analyze image with Gemini API.''))
   \<and> (fileToGenerativePart file = Inr imagePart \<and> generateContent imagePart = Raises \<longrightarrow>
      analyzeFridgeContents generateContent file
        = Inl (Error ''Failed to analyze image with Gemini API.''))
   \<and> (fileToGenerativePart file = Inr imagePart
        \<and> (generateContent imagePart = Text None \<or> generateContent imagePart = Text (Some []))
      \<longrightarrow> analyzeFridgeContents generateContent file = Inr [])
   \<and> ((\<exists>e. analyzeFridgeContents generateContent file = Inl e) \<longleftrightarrow>
        (dataURL file = None
         \<or> (\<exists>part. fileToGenerativePart file = Inr part \<and> generateContent part = Raises)))"
proof (intro conjI impI)
  assume "dataURL file = None"
  then show "analyzeFridgeContents generateContent file
      = Inl (Error ''Failed to analyze image with Gemini API.'')"
    by (simp add: analyzeFridgeContents_def fileToGenerativePart_def)
next
  assume "fileToGenerativePart file = Inr imagePart \<and> generateContent imagePart = Raises"
  then show "analyzeFridgeContents generateContent file
      = Inl (Error ''Failed to analyze image with Gemini API.'')"
    by (simp add: analyzeFridgeContents_def)
next
  assume "fileToGenerativePart file = Inr imagePart
        \<and> (generateContent imagePart = Text None \<or> generateContent imagePart = Text (Some []))"
  then show "analyzeFridgeContents generateContent file = Inr []"
    by (auto simp: analyzeFridgeContents_def)
next
  show "(\<exists>e. analyzeFridgeContents generateContent file = Inl e) \<longleftrightarrow>
        (dataURL file = None
         \<or> (\<exists>part. fileToGenerativePart file = Inr part \<and> generateContent part = Raises))"
    by (auto simp: analyzeFridgeContents_def fileToGenerativePart_def Let_def
        split: TextReply.splits option.splits)
qed

text \<open>
  The theorem at a file that cannot be read, at a service that raises and at one that
  answers without text.
\<close>

theorem analyzeFridgeContents_failure_witness:
  "analyzeFridgeContents (\<lambda>_. Text (Some ''eggs''))
     \<lparr>fileType = ''image/png'', dataURL = None\<rparr>
     = Inl (Error ''Failed to analyze image with Gemini API.'')
   \<and> analyzeFridgeContents (\<lambda>_. Raises)
     \<lparr>fileType = ''image/png'', dataURL = Some ''data:image/png;base64,AAAA''\<rparr>
     = Inl (Error ''Failed to analyze image with Gemini API.'')
   \<and> analyzeFridgeContents (\<lambda>_. Text None)
     \<lparr>fileType = ''image/png'', dataURL = Some ''data:image/png;base64,AAAA''\<rparr> = Inr []"
proof -
  have f: "fileToGenerativePart \<lparr>fileType = ''image/png'', dataURL = Some ''data:image/png;base64,AAAA''\<rparr>
      = Inr \<lparr>data = Some ''AAAA'', mimeType = ''image/png''\<rparr>"
    by (simp add: fileToGenerativePart_def)
  have u: "dataURL \<lparr>fileType = ''image/png'', dataURL = None\<rparr> = None" by simp
  show ?thesis
    using analyzeFridgeContents_failure
            [of "\<lparr>fileType = ''image/png'', dataURL = None\<rparr>" "\<lambda>_. Text (Some ''eggs'')"] u
      analyzeFridgeContents_failure
            [of "\<lparr>fileType = ''image/png'', dataURL = Some ''data:image/png;base64,AAAA''\<rparr>"
                "\<lambda>_. Raises" "\<lparr>data = Some ''AAAA'', mimeType = ''image/png''\<rparr>"] f
      analyzeFridgeContents_failure
            [of "\<lparr>fileType = ''image/png'', dataURL = Some ''data:image/png;base64,AAAA''\<rparr>"
                "\<lambda>_. Text None" "\<lparr>data = Some ''AAAA'', mimeType = ''image/png''\<rparr>"]
    by simp
qed

text \<open>
  Claim C8. With the identified ingredients that \<open>analyzeFridgeContents\<close> returned (the
  only value \<open>identifiedIngredients\<close> ever takes), an ingredient of a recipe is owned if
  and only if its name, lower-cased, contains one of them, lower-cased, as a contiguous
  run; in terms of the answer text of the service, whatever its casing: if and only if
  the lower-cased name contains the lower-cased trimmed form of one of its non-blank
  comma-separated segments.
\<close>

theorem isOwned_case_insensitive:
  assumes "analyzeFridgeContents generateContent file = Inr owned"
  shows "(isOwned owned ing \<longleftrightarrow>
            (\<exists>ownedIng\<in>set owned. \<exists>ps ss.
               toLowerCase (ingName ing) = ps @ toLowerCase ownedIng @ ss))
    \<and> (\<forall>imagePart answer.
          fileToGenerativePart file = Inr imagePart
          \<and> generateContent imagePart = Text (Some answer) \<longrightarrow>
          (isOwned owned ing \<longleftrightarrow>
             (\<exists>seg\<in>set (splitStr CHR '','' answer). trim seg \<noteq> [] \<and> (\<exists>ps ss.
                toLowerCase (ingName ing) = ps @ toLowerCase (trim seg) @ ss))))"
proof
  have "includesStr (toLowerCase (ingName ing)) x
      \<longleftrightarrow> (\<exists>ps ss. toLowerCase (ingName ing) = ps @ toLowerCase x @ ss)"
    if "x \<in> set owned" for x
    using analyzeFridgeContents_lower [OF assms that] by (simp add: includesStr_iff)
  then show "isOwned owned ing \<longleftrightarrow>
      (\<exists>ownedIng\<in>set owned. \<exists>ps ss. toLowerCase (ingName ing) = ps @ toLowerCase ownedIng @ ss)"
    by (simp add: isOwned_def list_ex_iff)
next
  show "\<forall>imagePart answer.
          fileToGenerativePart file = Inr imagePart
          \<and> generateContent imagePart = Text (Some answer) \<longrightarrow>
          (isOwned owned ing \<longleftrightarrow>
             (\<exists>seg\<in>set (splitStr CHR '','' answer). trim seg \<noteq> [] \<and> (\<exists>ps ss.
                toLowerCase (ingName ing) = ps @ toLowerCase (trim seg) @ ss)))"
  proof (intro allI impI)
    fix imagePart answer
    assume h: "fileToGenerativePart file = Inr imagePart
          \<and> generateContent imagePart = Text (Some answer)"
    then have "analyzeFridgeContents generateContent file =
           Inr (filter (\<lambda>item. item \<noteq> [])
                  (map (\<lambda>seg. toLowerCase (trim seg)) (splitStr CHR '','' answer)))"
      by (simp add: analyzeFridgeContents_text)
    with assms have owned: "owned = filter (\<lambda>item. item \<noteq> [])
                  (map (\<lambda>seg. toLowerCase (trim seg)) (splitStr CHR '','' answer))"
      by simp
    show "isOwned owned ing \<longleftrightarrow>
             (\<exists>seg\<in>set (splitStr CHR '','' answer). trim seg \<noteq> [] \<and> (\<exists>ps ss.
                toLowerCase (ingName ing) = ps @ toLowerCase (trim seg) @ ss))"
      unfolding owned isOwned_def list_ex_iff
      by (auto simp: includesStr_iff toLowerCase_Nil_iff)
  qed
qed

text \<open>The theorem at the answer \<open>EGGS, Milk\<close> and the ingredient \<open>Scrambled EGGS\<close>.\<close>

theorem isOwned_case_insensitive_witness:
  "analyzeFridgeContents (\<lambda>_. Text (Some ''EGGS, Milk''))
     \<lparr>fileType = ''image/png'', dataURL = Some ''data:image/png;base64,AAAA''\<rparr>
     = Inr [''eggs'', ''milk'']
   \<and> isOwned [''eggs'', ''milk''] \<lparr>ingName = ''Scrambled EGGS'', quantity = ''2''\<rparr>
   \<and> (\<exists>ownedIng\<in>set [''eggs'', ''milk'']. \<exists>ps ss.
         toLowerCase ''Scrambled EGGS'' = ps @ toLowerCase ownedIng @ ss)"
proof -
  have a: "analyzeFridgeContents (\<lambda>_. Text (Some ''EGGS, Milk''))
     \<lparr>fileType = ''image/png'', dataURL = Some ''data:image/png;base64,AAAA''\<rparr>
     = Inr [''eggs'', ''milk'']"
    by (simp add: analyzeFridgeContents_def fileToGenerativePart_def trim_def toLowerCase_def
        toLowerChar_def isUpperChar_def isWhiteSpace_def char_of_eq_iff)
  have o: "isOwned [''eggs'', ''milk''] \<lparr>ingName = ''Scrambled EGGS'', quantity = ''2''\<rparr>"
    by (simp add: isOwned_def toLowerCase_def toLowerChar_def isUpperChar_def char_of_eq_iff)
  from isOwned_case_insensitive [OF a, of "\<lparr>ingName = ''Scrambled EGGS'', quantity = ''2''\<rparr>"]
  have "isOwned [''eggs'', ''milk''] \<lparr>ingName = ''Scrambled EGGS'', quantity = ''2''\<rparr> \<longleftrightarrow>
    (\<exists>ownedIng\<in>set [''eggs'', ''milk'']. \<exists>ps ss.
         toLowerCase (ingName \<lparr>ingName = ''Scrambled EGGS'', quantity = ''2''\<rparr>)
           = ps @ toLowerCase ownedIng @ ss)"
    by (rule conjunct1)
  with a o show ?thesis by simp
qed

lemma findInlineData_first:
  assumes "\<exists>p\<in>set parts. inlineData p \<noteq> None"
  shows "\<exists>before p d after. parts = before @ p # after
    \<and> (\<forall>q\<in>set before. inlineData q = None) \<and> inlineData p = Some d
    \<and> findInlineData parts = Some (''data:image/png;base64,''
         @ (case data d of None \<Rightarrow> ''undefined'' | Some b \<Rightarrow> b))"
  using assms
proof (induction parts)
  case Nil
  then show ?case by simp
next
  case (Cons a parts)
  show ?case
  proof (cases "inlineData a")
    case (Some d)
    then have "a # parts = [] @ a # parts \<and> (\<forall>q\<in>set []. inlineData q = None) \<and> inlineData a = Some d
      \<and> findInlineData (a # parts) = Some (''data:image/png;base64,''
         @ (case data d of None \<Rightarrow> ''undefined'' | Some b \<Rightarrow> b))" by simp
    then show ?thesis by blast
  next
    case None
    with Cons.prems have "\<exists>p\<in>set parts. inlineData p \<noteq> None" by auto
    from Cons.IH [OF this] obtain before p d after where
      "parts = before @ p # after" "\<forall>q\<in>set before. inlineData q = None" "inlineData p = Some d"
      "findInlineData parts = Some (''data:image/png;base64,''
         @ (case data d of None \<Rightarrow> ''undefined'' | Some b \<Rightarrow> b))" by blast
    with None have "a # parts = (a # before) @ p # after
      \<and> (\<forall>q\<in>set (a # before). inlineData q = None) \<and> inlineData p = Some d
      \<and> findInlineData (a # parts) = Some (''data:image/png;base64,''
         @ (case data d of None \<Rightarrow> ''undefined'' | Some b \<Rightarrow> b))" by simp
    then show ?thesis by blast
  qed
qed

text \<open>
  Claim C10. When the parts of the first candidate of the response contain inline data,
  \<open>generateRecipeImage\<close> returns \<open>data:image/png;base64,\<close> followed by the data of the
  first part that has inline data, whatever \<open>mimeType\<close> that part reports.
\<close>

theorem generateRecipeImage_png_prefix:
  assumes "generateContent recipeName = ImageResponse (Some parts # others)"
    and "\<exists>p\<in>set parts. inlineData p \<noteq> None"
  shows "\<exists>before p d after. parts = before @ p # after
    \<and> (\<forall>q\<in>set before. inlineData q = None) \<and> inlineData p = Some d
    \<and> generateRecipeImage generateContent recipeName
        = Inr (''data:image/png;base64,''
                 @ (case data d of None \<Rightarrow> ''undefined'' | Some b \<Rightarrow> b))"
  using findInlineData_first [OF assms(2)] assms(1)
  by (fastforce simp: generateRecipeImage_def)

text \<open>The theorem at a response whose second part is a JPEG payload.\<close>

theorem generateRecipeImage_png_prefix_witness:
  "(\<exists>before p d after.
      [\<lparr>inlineData = None, partText = Some ''here''\<rparr>,
       \<lparr>inlineData = Some \<lparr>data = Some ''/9j/4AAQ'', mimeType = ''image/jpeg''\<rparr>,
        partText = None\<rparr>] = before @ p # after
      \<and> (\<forall>q\<in>set before. inlineData q = None) \<and> inlineData p = Some d
      \<and> generateRecipeImage
           (\<lambda>_. ImageResponse
              [Some [\<lparr>inlineData = None, partText = Some ''here''\<rparr>,
                     \<lparr>inlineData = Some \<lparr>data = Some ''/9j/4AAQ'', mimeType = ''image/jpeg''\<rparr>,
                      partText = None\<rparr>]])
           ''Cheese Omelette''
         = Inr (''data:image/png;base64,''
                  @ (case data d of None \<Rightarrow> ''undefined'' | Some b \<Rightarrow> b)))
   \<and> generateRecipeImage
        (\<lambda>_. ImageResponse
           [Some [\<lparr>inlineData = None, partText = Some ''here''\<rparr>,
                  \<lparr>inlineData = Some \<lparr>data = Some ''/9j/4AAQ'', mimeType = ''image/jpeg''\<rparr>,
                   partText = None\<rparr>]])
        ''Cheese Omelette''
      = Inr ''data:image/png;base64,/9j/4AAQ''"
proof (rule conjI)
  show "\<exists>before p d after.
      [\<lparr>inlineData = None, partText = Some ''here''\<rparr>,
       \<lparr>inlineData = Some \<lparr>data = Some ''/9j/4AAQ'', mimeType = ''image/jpeg''\<rparr>,
        partText = None\<rparr>] = before @ p # after
      \<and> (\<forall>q\<in>set before. inlineData q = None) \<and> inlineData p = Some d
      \<and> generateRecipeImage
           (\<lambda>_. ImageResponse
              [Some [\<lparr>inlineData = None, partText = Some ''here''\<rparr>,
                     \<lparr>inlineData = Some \<lparr>data = Some ''/9j/4AAQ'', mimeType = ''image/jpeg''\<rparr>,
                      partText = None\<rparr>]])
           ''Cheese Omelette''
         = Inr (''data:image/png;base64,''
                  @ (case data d of None \<Rightarrow> ''undefined'' | Some b \<Rightarrow> b))"
    by (rule generateRecipeImage_png_prefix [where others = "[]"]) simp_all
next
  show "generateRecipeImage
        (\<lambda>_. ImageResponse
           [Some [\<lparr>inlineData = None, partText = Some ''here''\<rparr>,
                  \<lparr>inlineData = Some \<lparr>data = Some ''/9j/4AAQ'', mimeType = ''image/jpeg''\<rparr>,
                   partText = None\<rparr>]])
        ''Cheese Omelette''
      = Inr ''data:image/png;base64,/9j/4AAQ''"
    by (simp add: generateRecipeImage_def)
qed

section \<open>Properties of the acquisition pipeline\<close>

lemma length_recipesWithImages [simp]:
  "length (recipesWithImages svc generated) = length generated"
  by (simp add: recipesWithImages_def)

lemma nth_recipesWithImages:
  "i < length generated \<Longrightarrow>
     recipesWithImages svc generated ! i = attachImage svc i (generated ! i)"
  by (simp add: recipesWithImages_def nth_enumerate_eq)

lemma attachImage_failed:
  "generateRecipeImage (imageService svc i) (name r) = Inl e \<Longrightarrow> attachImage svc i r = r"
  by (simp add: attachImage_def)

lemma attachImage_succeeded:
  "generateRecipeImage (imageService svc i) (name r) = Inr url \<Longrightarrow>
     attachImage svc i r = r\<lparr>imageUrl := Some url\<rparr>"
  by (simp add: attachImage_def)

lemma attachImage_frame: "sameExceptImageUrl r (attachImage svc i r)"
  by (simp add: attachImage_def sameExceptImageUrl_def split: sum.splits)

lemma recipesWithImages_frame:
  "list_all2 sameExceptImageUrl generated (recipesWithImages svc generated)"
  by (simp add: list_all2_conv_all_nth nth_recipesWithImages attachImage_frame)

lemma handleImageUpload_success:
  assumes "analyzeFridgeContents (analyzeService svc) file = Inr found"
    and "getRecipes (recipeService svc) found (activeFilters s) = Inr (Some generated)"
  shows "handleImageUpload svc file s =
           s\<lparr>imageFile := Some file, error := None, identifiedIngredients := found,
              recipes := recipesWithImages svc generated, appState := Results\<rparr>"
  using assms by (simp add: handleImageUpload_def)

lemma handleFilterChange_success:
  assumes "identifiedIngredients s \<noteq> []"
    and "getRecipes (recipeService svc) (identifiedIngredients s) newFilters = Inr (Some generated)"
  shows "handleFilterChange svc newFilters s =
           s\<lparr>activeFilters := newFilters, error := None,
              recipes := recipesWithImages svc generated, appState := Results\<rparr>"
  using assms by (simp add: handleFilterChange_def)

lemma count_all_but_one:
  assumes "k < length xs" and "\<not> P (xs ! k)"
    and "\<forall>i<length xs. i \<noteq> k \<longrightarrow> P (xs ! i)"
  shows "length (filter P xs) = length xs - 1"
proof -
  have xs: "xs = take k xs @ xs ! k # drop (Suc k) xs"
    using assms(1) by (rule id_take_nth_drop)
  have "\<forall>x\<in>set (take k xs). P x"
    using assms(1,3) by (auto simp: in_set_conv_nth)
  then have a: "filter P (take k xs) = take k xs" by simp
  have "\<forall>x\<in>set (drop (Suc k) xs). P x"
  proof
    fix x assume "x \<in> set (drop (Suc k) xs)"
    then obtain j where "j < length xs - Suc k" "x = xs ! (Suc k + j)"
      by (auto simp: in_set_conv_nth)
    with assms(3) show "P x" by simp
  qed
  then have b: "filter P (drop (Suc k) xs) = drop (Suc k) xs" by simp
  have "length (filter P xs)
      = length (filter P (take k xs)) + length (filter P (drop (Suc k) xs))"
    using assms(2) by (subst xs) simp
  also have "\<dots> = k + (length xs - Suc k)" using assms(1) by (simp add: a b)
  finally show ?thesis using assms(1) by simp
qed

lemma initial_screen_has_no_recipes:
  "appState (runApp evs) = Initial \<Longrightarrow> recipes (runApp evs) = []"
proof (induction evs rule: rev_induct)
  case Nil
  show ?case by (simp add: runApp_def initialApp_def)
next
  case (snoc ev evs)
  have step: "runApp (evs @ [ev]) = appStep ev (runApp evs)" by (simp add: runApp_def)
  show ?case
  proof (cases ev)
    case (Upload svc f)
    with snoc show ?thesis unfolding step
      by (auto simp: appStep_def handleImageUpload_def Let_def
          split: if_splits sum.splits option.splits)
  next
    case (FilterChange svc newFilters)
    with snoc show ?thesis unfolding step
      by (auto simp: appStep_def handleFilterChange_def Let_def
          split: if_splits sum.splits option.splits)
  qed
qed

text \<open>
  Claim C1. When ingredient extraction and recipe generation succeed, the \<open>N\<close> generated
  recipes carry no image reference, and the image request of exactly one recipe, the one
  at position \<open>k\<close>, fails, the upload ends in \<open>results\<close> with no error and delivers all \<open>N\<close>
  recipes, each as generated apart from the image reference: the recipe at position \<open>k\<close>
  has none, each of the others has one, which makes \<open>N - 1\<close> recipes with an image
  reference.
\<close>

theorem one_image_failure_is_tolerated:
  assumes "analyzeFridgeContents (analyzeService svc) file = Inr found"
    and "getRecipes (recipeService svc) found (activeFilters s) = Inr (Some generated)"
    and "\<forall>r\<in>set generated. imageUrl r = None"
    and "k < length generated"
    and "generateRecipeImage (imageService svc k) (name (generated ! k)) = Inl e"
    and "\<forall>i<length generated. i \<noteq> k \<longrightarrow>
           (\<exists>url. generateRecipeImage (imageService svc i) (name (generated ! i)) = Inr url)"
  shows "appState (handleImageUpload svc file s) = Results
    \<and> error (handleImageUpload svc file s) = None
    \<and> length (recipes (handleImageUpload svc file s)) = length generated
    \<and> list_all2 sameExceptImageUrl generated (recipes (handleImageUpload svc file s))
    \<and> imageUrl (recipes (handleImageUpload svc file s) ! k) = None
    \<and> (\<forall>i<length generated. i \<noteq> k \<longrightarrow>
          imageUrl (recipes (handleImageUpload svc file s) ! i) \<noteq> None)
    \<and> length (filter (\<lambda>r. imageUrl r \<noteq> None) (recipes (handleImageUpload svc file s)))
        = length generated - 1"
proof -
  let ?final = "recipesWithImages svc generated"
  have final: "recipes (handleImageUpload svc file s) = ?final"
    and st: "appState (handleImageUpload svc file s) = Results"
    and err: "error (handleImageUpload svc file s) = None"
    using handleImageUpload_success [OF assms(1,2)] by simp_all
  have "?final ! k = generated ! k"
    using assms(4,5) by (simp add: nth_recipesWithImages attachImage_failed)
  then have failed: "imageUrl (?final ! k) = None" using assms(3,4) by simp
  have others: "imageUrl (?final ! i) \<noteq> None" if "i < length generated" "i \<noteq> k" for i
  proof -
    from that assms(6) obtain url where
      "generateRecipeImage (imageService svc i) (name (generated ! i)) = Inr url" by blast
    with that(1) show ?thesis by (simp add: nth_recipesWithImages attachImage_succeeded)
  qed
  have "length (filter (\<lambda>r. imageUrl r \<noteq> None) ?final) = length ?final - 1"
    by (rule count_all_but_one [where k = k]) (use assms(4) failed others in auto)
  then show ?thesis
    using final st err failed others recipesWithImages_frame [of generated svc] by simp
qed

text \<open>
  Claim C2. When \<open>analyzeFridgeContents\<close> fails, or \<open>getRecipes\<close> fails or delivers no
  recipe list, \<open>handleImageUpload\<close> sets an error message, returns to \<open>initial\<close> and never
  calls \<open>setRecipes\<close>: the recipe list stays what it was, which is the empty list
  wherever the uploader is shown (lemma \<open>initial_screen_has_no_recipes\<close>).
\<close>

theorem failed_acquisition_sets_no_recipes:
  assumes "(\<exists>e. analyzeFridgeContents (analyzeService svc) file = Inl e)
    \<or> (\<exists>found e. analyzeFridgeContents (analyzeService svc) file = Inr found
          \<and> getRecipes (recipeService svc) found (activeFilters s) = Inl e)
    \<or> (\<exists>found. analyzeFridgeContents (analyzeService svc) file = Inr found
          \<and> getRecipes (recipeService svc) found (activeFilters s) = Inr None)"
  shows "(\<exists>msg. error (handleImageUpload svc file s) = Some msg)
    \<and> appState (handleImageUpload svc file s) = Initial
    \<and> recipes (handleImageUpload svc file s) = recipes s"
  using assms by (auto simp: handleImageUpload_def)

text \<open>
  Claim C9. In the result of either flow, \<open>handleImageUpload\<close> and \<open>handleFilterChange\<close>,
  the recipes are the generated ones, position by position, with the same name,
  difficulty, preparation time, calories, ingredients and instructions, whether their
  image request succeeded or failed.
\<close>

theorem image_attachment_changes_only_imageUrl:
  assumes "(final = recipes (handleImageUpload svc file s)
      \<and> analyzeFridgeContents (analyzeService svc) file = Inr found
      \<and> getRecipes (recipeService svc) found (activeFilters s) = Inr (Some generated))
    \<or> (final = recipes (handleFilterChange svc newFilters s)
      \<and> identifiedIngredients s \<noteq> []
      \<and> getRecipes (recipeService svc) (identifiedIngredients s) newFilters
          = Inr (Some generated))"
  shows "length final = length generated
    \<and> (\<forall>i<length generated.
          name (final ! i) = name (generated ! i)
          \<and> difficulty (final ! i) = difficulty (generated ! i)
          \<and> prepTime (final ! i) = prepTime (generated ! i)
          \<and> calories (final ! i) = calories (generated ! i)
          \<and> ingredients (final ! i) = ingredients (generated ! i)
          \<and> instructions (final ! i) = instructions (generated ! i)
          \<and> final ! i = (generated ! i)\<lparr>imageUrl := imageUrl (final ! i)\<rparr>)"
proof -
  from assms have final: "final = recipesWithImages svc generated"
  proof
    assume "final = recipes (handleImageUpload svc file s)
      \<and> analyzeFridgeContents (analyzeService svc) file = Inr found
      \<and> getRecipes (recipeService svc) found (activeFilters s) = Inr (Some generated)"
    then show ?thesis by (simp add: handleImageUpload_success)
  next
    assume "final = recipes (handleFilterChange svc newFilters s)
      \<and> identifiedIngredients s \<noteq> []
      \<and> getRecipes (recipeService svc) (identifiedIngredients s) newFilters
          = Inr (Some generated)"
    then show ?thesis by (simp add: handleFilterChange_success)
  qed
  have "sameExceptImageUrl (generated ! i) (final ! i)
      \<and> final ! i = (generated ! i)\<lparr>imageUrl := imageUrl (final ! i)\<rparr>"
    if "i < length generated" for i
    using that unfolding final
    by (simp add: nth_recipesWithImages attachImage_def sameExceptImageUrl_def
        split: sum.splits)
  then show ?thesis unfolding final by (simp add: sameExceptImageUrl_def)
qed

lemma degraded_analysis:
  "analyzeFridgeContents (analyzeService degradedServices) fridgePhoto
     = Inr [''eggs'', ''milk'', ''cheddar'']"
  by (simp add: degradedServices_def fridgePhoto_def analyzeFridgeContents_def
      fileToGenerativePart_def trim_def toLowerCase_def toLowerChar_def isUpperChar_def
      isWhiteSpace_def char_of_eq_iff)

lemma degraded_generation:
  "getRecipes (recipeService degradedServices) found (activeFilters initialApp)
     = Inr (Some [omelette, pancakes])"
  by (simp add: degradedServices_def getRecipes_def)

lemma degraded_images:
  "generateRecipeImage (imageService degradedServices 0) (name ([omelette, pancakes] ! 0))
     = Inl (imageFailure ''Cheese Omelette'')"
  "generateRecipeImage (imageService degradedServices 1) recipeName
     = Inr ''data:image/png;base64,iVBORw0KGgo=''"
  by (simp_all add: degradedServices_def generateRecipeImage_def pngPart_def omelette_def)

text \<open>The theorem at two generated recipes, the image request of the first one raising.\<close>

theorem one_image_failure_is_tolerated_witness:
  "recipes (handleImageUpload degradedServices fridgePhoto initialApp)
     = [omelette, pancakes\<lparr>imageUrl := Some ''data:image/png;base64,iVBORw0KGgo=''\<rparr>]
   \<and> error (handleImageUpload degradedServices fridgePhoto initialApp) = None
   \<and> appState (handleImageUpload degradedServices fridgePhoto initialApp) = Results
   \<and> length (filter (\<lambda>r. imageUrl r \<noteq> None)
        (recipes (handleImageUpload degradedServices fridgePhoto initialApp))) = 1"
proof -
  have fresh: "\<forall>r\<in>set [omelette, pancakes]. imageUrl r = None"
    by (simp add: omelette_def pancakes_def)
  have k: "0 < length [omelette, pancakes]" by simp
  have ok: "\<forall>i<length [omelette, pancakes]. i \<noteq> 0 \<longrightarrow>
      (\<exists>url. generateRecipeImage (imageService degradedServices i)
                (name ([omelette, pancakes] ! i)) = Inr url)"
    using degraded_images(2) by (auto simp: less_Suc_eq)
  have final: "recipes (handleImageUpload degradedServices fridgePhoto initialApp)
     = [omelette, pancakes\<lparr>imageUrl := Some ''data:image/png;base64,iVBORw0KGgo=''\<rparr>]"
    using degraded_images
    by (simp add: handleImageUpload_success [OF degraded_analysis degraded_generation]
        recipesWithImages_def attachImage_def)
  from one_image_failure_is_tolerated
    [OF degraded_analysis degraded_generation fresh k degraded_images(1) ok]
  show ?thesis unfolding final by simp
qed

text \<open>The theorem from the initial state, at a failing analysis and at a failing generation.\<close>

theorem failed_acquisition_sets_no_recipes_witness:
  "error (handleImageUpload blindServices fridgePhoto initialApp)
     = Some ''Failed to analyze image with Gemini API.''
   \<and> recipes (handleImageUpload blindServices fridgePhoto initialApp) = []
   \<and> error (handleImageUpload garbledServices fridgePhoto initialApp)
     = Some ''Failed to generate recipes with Gemini API.''
   \<and> recipes (handleImageUpload garbledServices fridgePhoto initialApp) = []"
proof -
  have blind: "analyzeFridgeContents (analyzeService blindServices) fridgePhoto
      = Inl (Error ''Failed to analyze image with Gemini API.'')"
    by (simp add: blindServices_def fridgePhoto_def analyzeFridgeContents_def
        fileToGenerativePart_def)
  have seen: "analyzeFridgeContents (analyzeService garbledServices) fridgePhoto
      = Inr [''eggs'', ''milk'', ''cheddar'']"
    using degraded_analysis by (simp add: garbledServices_def)
  have garbled: "getRecipes (recipeService garbledServices) [''eggs'', ''milk'', ''cheddar'']
      (activeFilters initialApp) = Inl (Error ''Failed to generate recipes with Gemini API.'')"
    by (simp add: garbledServices_def getRecipes_def)
  have e1: "error (handleImageUpload blindServices fridgePhoto initialApp)
     = Some ''Failed to analyze image with Gemini API.''"
    using blind by (simp add: handleImageUpload_def)
  have e2: "error (handleImageUpload garbledServices fridgePhoto initialApp)
     = Some ''Failed to generate recipes with Gemini API.''"
    using seen garbled by (simp add: handleImageUpload_def)
  have none: "recipes initialApp = []" by (simp add: initialApp_def)
  have "recipes (handleImageUpload blindServices fridgePhoto initialApp) = recipes initialApp"
    using failed_acquisition_sets_no_recipes [of blindServices fridgePhoto initialApp] blind
    by blast
  moreover
  have "recipes (handleImageUpload garbledServices fridgePhoto initialApp) = recipes initialApp"
    using failed_acquisition_sets_no_recipes [of garbledServices fridgePhoto initialApp]
      seen garbled
    by blast
  ultimately show ?thesis using e1 e2 none by simp
qed

text \<open>The theorem at an upload and a following change of filters.\<close>

theorem image_attachment_changes_only_imageUrl_witness:
  "recipes (handleImageUpload degradedServices fridgePhoto initialApp)
     = [omelette, pancakes\<lparr>imageUrl := Some ''data:image/png;base64,iVBORw0KGgo=''\<rparr>]
   \<and> length (recipes (handleImageUpload degradedServices fridgePhoto initialApp)) = 2
   \<and> name (recipes (handleImageUpload degradedServices fridgePhoto initialApp) ! 1)
       = name pancakes
   \<and> instructions (recipes (handleImageUpload degradedServices fridgePhoto initialApp) ! 1)
       = instructions pancakes"
proof -
  let ?final = "recipes (handleImageUpload degradedServices fridgePhoto initialApp)"
  have computed: "?final
      = [omelette, pancakes\<lparr>imageUrl := Some ''data:image/png;base64,iVBORw0KGgo=''\<rparr>]"
    using degraded_images
    by (simp add: handleImageUpload_success [OF degraded_analysis degraded_generation]
        recipesWithImages_def attachImage_def)
  have "(?final = recipes (handleImageUpload degradedServices fridgePhoto initialApp)
      \<and> analyzeFridgeContents (analyzeService degradedServices) fridgePhoto
          = Inr [''eggs'', ''milk'', ''cheddar'']
      \<and> getRecipes (recipeService degradedServices) [''eggs'', ''milk'', ''cheddar'']
            (activeFilters initialApp) = Inr (Some [omelette, pancakes]))
    \<or> (?final = recipes (handleFilterChange degradedServices [] initialApp)
      \<and> identifiedIngredients initialApp \<noteq> []
      \<and> getRecipes (recipeService degradedServices) (identifiedIngredients initialApp) []
          = Inr (Some [omelette, pancakes]))"
    using degraded_analysis degraded_generation by simp
  from image_attachment_changes_only_imageUrl [OF this] computed show ?thesis by simp
qed

section \<open>Properties of the narration\<close>

lemma run_snoc: "run recipe (evs @ [ev]) s = step recipe ev (run recipe evs s)"
  by (simp add: run_def)

lemma initialNarration_inv: "narrationInv recipe initialNarration"
  by (simp add: narrationInv_def indexInv_def queueInv_def initialNarration_def)

lemma settle_stable:
  "render recipe (render recipe prev s) (settle recipe prev s) = settle recipe prev s"
  by (simp add: settle_def render_def depsChanged_def narrationEffect_def stopSpeaking_def
      Let_def)

lemma settle_click:
  assumes "isSpeaking s \<longrightarrow> int (length (instructions recipe)) \<le> currentStepIndex s"
  shows "settle recipe s t = narrationEffect recipe t"
  using assms
  by (auto simp: settle_def render_def depsChanged_def narrationEffect_def stopSpeaking_def
      Let_def)

lemma narrationEffect_inv:
  assumes "indexInv recipe t" and "queueInv recipe t"
    and "isSpeaking t \<longrightarrow> \<not> paused (speechSynthesis t)"
  shows "narrationInv recipe (narrationEffect recipe t)"
proof (cases "isSpeaking t \<and> currentStepIndex t < int (length (instructions recipe))")
  case False
  with assms show ?thesis by (auto simp: narrationInv_def narrationEffect_def)
next
  case True
  with assms(2) have q: "queue (speechSynthesis (stopSpeaking t)) = []"
    by (cases "queue (speechSynthesis t)")
       (auto simp: queueInv_def stopSpeaking_def speaking_def synthCancel_def Let_def)
  have i: "currentStepIndex (stopSpeaking t) = currentStepIndex t"
    and p: "paused (speechSynthesis (stopSpeaking t)) = paused (speechSynthesis t)"
    and sp: "\<not> isSpeaking (stopSpeaking t)"
    by (simp_all add: stopSpeaking_def synthCancel_def Let_def)
  from True assms(1,3) q i p sp show ?thesis
    by (simp add: narrationInv_def indexInv_def queueInv_def narrationEffect_def
        synthSpeak_def Let_def)
qed

lemma handlePlayPause_inv:
  assumes "narrationInv recipe s"
  shows "narrationInv recipe (step recipe PlayPauseClick s)"
proof -
  let ?t = "handlePlayPause recipe s"
  from assms have stable:
    "isSpeaking s \<longrightarrow> int (length (instructions recipe)) \<le> currentStepIndex s"
    by (simp add: narrationInv_def)
  have "narrationInv recipe (narrationEffect recipe ?t)"
  proof (rule narrationEffect_inv)
    show "indexInv recipe ?t"
      using assms by (simp add: narrationInv_def indexInv_def handlePlayPause_def Let_def)
    show "queueInv recipe ?t"
      using assms
      by (auto simp: narrationInv_def queueInv_def handlePlayPause_def synthPause_def
          synthResume_def Let_def)
    show "isSpeaking ?t \<longrightarrow> \<not> paused (speechSynthesis ?t)"
      by (simp add: handlePlayPause_def synthPause_def synthResume_def Let_def)
  qed
  then show ?thesis by (simp add: step_def settle_click [OF stable])
qed

lemma handleStop_inv:
  assumes "narrationInv recipe s"
  shows "narrationInv recipe (step recipe StopClick s)"
proof -
  from assms have stable:
    "isSpeaking s \<longrightarrow> int (length (instructions recipe)) \<le> currentStepIndex s"
    by (simp add: narrationInv_def)
  have "narrationEffect recipe (handleStop s) = handleStop s"
    by (simp add: narrationEffect_def handleStop_def stopSpeaking_def Let_def)
  moreover have "narrationInv recipe (handleStop s)"
    using assms
    by (cases "queue (speechSynthesis s)")
       (auto simp: narrationInv_def indexInv_def queueInv_def handleStop_def stopSpeaking_def
          speaking_def synthCancel_def Let_def)
  ultimately show ?thesis by (simp add: step_def settle_click [OF stable])
qed

lemma UtteranceEnd_inv:
  assumes "narrationInv recipe s"
  shows "narrationInv recipe (step recipe UtteranceEnd s)"
proof (cases "queue (speechSynthesis s)")
  case Nil
  with assms show ?thesis by (simp add: step_def)
next
  case (Cons u rest)
  show ?thesis
  proof (cases "begun (speechSynthesis s) \<and> \<not> paused (speechSynthesis s)")
    case False
    with Cons assms show ?thesis by (auto simp: step_def)
  next
    case True
    let ?popped = "s\<lparr>speechSynthesis := (speechSynthesis s)\<lparr>queue := rest, begun := (rest \<noteq> [])\<rparr>\<rparr>"
    let ?t = "onend recipe u ?popped"
    from assms have stable:
      "isSpeaking s \<longrightarrow> int (length (instructions recipe)) \<le> currentStepIndex s"
      by (simp add: narrationInv_def)
    from assms Cons have u: "utterStep u = currentStepIndex s"
      and below: "currentStepIndex s < int (length (instructions recipe))"
      and rest: "rest = []"
      and nonneg: "0 \<le> currentStepIndex s"
      by (simp_all add: narrationInv_def queueInv_def indexInv_def)
    from below stable have quiet: "\<not> isSpeaking s" by auto
    have eff: "narrationEffect recipe ?t = ?t"
      using quiet by (simp add: narrationEffect_def onend_def)
    have "narrationInv recipe ?t"
      using u below rest nonneg quiet
      by (auto simp: narrationInv_def indexInv_def queueInv_def onend_def)
    with eff True Cons show ?thesis by (simp add: step_def settle_click [OF stable] Let_def)
  qed
qed

lemma step_inv: "narrationInv recipe s \<Longrightarrow> narrationInv recipe (step recipe ev s)"
  by (cases ev) (simp_all add: handlePlayPause_inv handleStop_inv UtteranceEnd_inv)

lemma run_inv: "narrationInv recipe (run recipe evs initialNarration)"
proof (induction evs rule: rev_induct)
  case Nil
  show ?case by (simp add: run_def initialNarration_inv)
next
  case (snoc ev evs)
  then show ?case by (simp add: run_snoc step_inv)
qed

text \<open>
  Claim C4. For every recipe and every sequence of clicks on play/pause, clicks on stop
  and natural ends of an utterance, starting from the initial narration state, the step
  index lies between 0 and the number of instructions.
\<close>

theorem currentStepIndex_in_range:
  "0 \<le> currentStepIndex (run recipe evs initialNarration)
   \<and> currentStepIndex (run recipe evs initialNarration) \<le> int (length (instructions recipe))"
  using run_inv [of recipe evs] by (simp add: narrationInv_def indexInv_def)

text \<open>The theorem at the omelette: play, the first step ends, play, stop.\<close>

theorem currentStepIndex_in_range_witness:
  "0 \<le> currentStepIndex
          (run omelette [PlayPauseClick, UtteranceEnd, PlayPauseClick, StopClick] initialNarration)
   \<and> currentStepIndex
          (run omelette [PlayPauseClick, UtteranceEnd, PlayPauseClick, StopClick] initialNarration)
        \<le> 3"
  using currentStepIndex_in_range
    [of omelette "[PlayPauseClick, UtteranceEnd, PlayPauseClick, StopClick]"]
  by (simp add: omelette_def)

lemma completed_unreachable:
  "instructions recipe \<noteq> [] \<Longrightarrow>
     currentStepIndex (run recipe evs initialNarration) < int (length (instructions recipe))"
  using run_inv [of recipe evs] by (simp add: narrationInv_def indexInv_def)

lemma isSpeaking_reset_by_effect:
  "instructions recipe \<noteq> [] \<Longrightarrow> \<not> isSpeaking (run recipe evs initialNarration)"
  using run_inv [of recipe evs] by (auto simp: narrationInv_def indexInv_def)

lemma play_at_end_of_instructions_restarts:
  assumes "\<not> isSpeaking s" and "\<not> paused (speechSynthesis s)"
    and "queue (speechSynthesis s) = []"
    and "int (length (instructions recipe)) \<le> currentStepIndex s"
    and "instructions recipe \<noteq> []"
  shows "currentStepIndex (step recipe PlayPauseClick s) = 0
    \<and> calls (speechSynthesis (step recipe PlayPauseClick s))
        = calls (speechSynthesis s) @ [Speak (textToSpeak recipe 0)]"
  using assms
  by (simp add: step_def settle_def render_def depsChanged_def handlePlayPause_def
      narrationEffect_def stopSpeaking_def speaking_def synthSpeak_def Let_def)

text \<open>
  Claim C5, evaluated on the omelette with its three instructions. After every step has
  been narrated to its natural end the step index is 2, not 3, and the engine is idle;
  the next click on play narrates step 3 once more instead of step 1.
\<close>

theorem play_after_last_step_repeats_it:
  "currentStepIndex
     (run omelette [PlayPauseClick, UtteranceEnd, PlayPauseClick, UtteranceEnd,
                    PlayPauseClick, UtteranceEnd] initialNarration) = 2
   \<and> queue (speechSynthesis
        (run omelette [PlayPauseClick, UtteranceEnd, PlayPauseClick, UtteranceEnd,
                       PlayPauseClick, UtteranceEnd] initialNarration)) = []
   \<and> calls (speechSynthesis
        (run omelette [PlayPauseClick, UtteranceEnd, PlayPauseClick, UtteranceEnd,
                       PlayPauseClick, UtteranceEnd, PlayPauseClick] initialNarration))
      = [Speak ''Step 1. Beat the eggs.'', Speak ''Step 2. Cook them.'',
         Speak ''Step 3. Fold in the cheese.'', Speak ''Step 3. Fold in the cheese.'']"
  by (simp add: run_def step_def settle_def render_def depsChanged_def handlePlayPause_def
      narrationEffect_def stopSpeaking_def speaking_def synthSpeak_def synthCancel_def
      onend_def textToSpeak_def showInt_def showNat.simps initialNarration_def omelette_def
      Let_def char_of_eq_iff)





end
